theory Spec2Isabelle
  imports Main
begin

section \<open>Data model\<close>

text \<open>
  The development embeds \<^verbatim>\<open>Assignment 3/Lance/AggressorStrategy.cpp\<close>. The classes
  \<^verbatim>\<open>Character\<close>, \<^verbatim>\<open>Map\<close> and \<^verbatim>\<open>Global\<close> are only included by that file
  (\<^verbatim>\<open>Character.h\<close>, \<^verbatim>\<open>Map.h\<close>, \<^verbatim>\<open>Global.h\<close>); their accessors are modelled
  from the specification's description of them.

  C++ \<^verbatim>\<open>int\<close> values are \<open>int\<close>. The arithmetic on grid coordinates (\<open>\<plusminus> 1\<close> and a
  Manhattan distance between cells) stays far from the 32-bit range and is written
  without wrap-around. The hit-point decrement is applied to whatever value a character
  stores, so its 32-bit result is written out: \<open>wrapInt\<close> is the two's complement value
  that the subtraction stores (the C++ standard leaves the overflowing case undefined).
\<close>

definition wrapInt :: "int \<Rightarrow> int" where
  "wrapInt n = (n + 2147483648) mod 4294967296 - 2147483648"

datatype Strategy = HumanPlayerStrategy | AggressorStrategy | FriendlyStrategy

text \<open>
  Modelled from the spec: the \<^verbatim>\<open>Character\<close> class (position, hit points, map symbol,
  replaceable strategy); the getters and setters of the source are the record's selectors
  and updates.
\<close>

record Character =
  currentPositionX :: int
  currentPositionY :: int
  hitPoints :: int
  typeOnMap :: char
  strategy :: Strategy

text \<open>
  Modelled from the spec: the \<^verbatim>\<open>Map\<close> class, a grid of symbols with a width, a length
  and the human player's coordinates. The grid is a function of the coordinates; what it
  holds outside \<open>0 \<le> x < width\<close>, \<open>0 \<le> y < length\<close> stands for whatever the absent
  \<^verbatim>\<open>Map::getCell\<close> answers there.
\<close>

record GameMap =
  cells :: "int \<times> int \<Rightarrow> char"
  mapWidth :: int
  mapLength :: int
  humanX :: int
  humanY :: int

text \<open>Modelled from the spec: \<^verbatim>\<open>Map::getCell(x, y) -> symbol\<close>.\<close>

definition getCell :: "GameMap \<Rightarrow> int \<Rightarrow> int \<Rightarrow> char" where
  "getCell m x y = cells m (x, y)"

text \<open>Modelled from the spec: \<^verbatim>\<open>Map::setCell(x, y, symbol)\<close>.\<close>

definition setCell :: "GameMap \<Rightarrow> int \<Rightarrow> int \<Rightarrow> char \<Rightarrow> GameMap" where
  "setCell m x y s = m\<lparr>cells := (cells m)((x, y) := s)\<rparr>"

text \<open>Modelled from the spec: \<^verbatim>\<open>Map::clearCell(x, y)\<close>; the empty symbol is the blank
  that \<^verbatim>\<open>moveCloserToHuman\<close> tests for.\<close>

definition clearCell :: "GameMap \<Rightarrow> int \<Rightarrow> int \<Rightarrow> GameMap" where
  "clearCell m x y = setCell m x y (CHR '' '')"

text \<open>Modelled from the spec: \<^verbatim>\<open>Map::getMapWidth()\<close> and \<^verbatim>\<open>Map::getMapLength()\<close>.\<close>

definition getMapWidth :: "GameMap \<Rightarrow> int" where
  "getMapWidth m = mapWidth m"

definition getMapLength :: "GameMap \<Rightarrow> int" where
  "getMapLength m = mapLength m"

text \<open>Modelled from the spec: \<^verbatim>\<open>Map::getHumanPosition() -> (x, y)\<close>, the two-element
  vector that the source indexes with \<^verbatim>\<open>[0]\<close> and \<^verbatim>\<open>[1]\<close>.\<close>

definition getHumanPosition :: "GameMap \<Rightarrow> int list" where
  "getHumanPosition m = [humanX m, humanY m]"

section \<open>Movement\<close>

text \<open>\<^verbatim>\<open>AggressorStrategy::shortestDistanceToHuman\<close> (lines 70--72).\<close>

definition shortestDistanceToHuman :: "int \<Rightarrow> int \<Rightarrow> int \<Rightarrow> int \<Rightarrow> int" where
  "shortestDistanceToHuman charPosX charPosY humanPosX humanPosY =
     \<bar>charPosX - humanPosX\<bar> + \<bar>charPosY - humanPosY\<bar>"

text \<open>
  The four movement primitives (lines 77--120). Each mutates the map and the character
  it is given; the model returns both. The local \<^verbatim>\<open>humanPosition\<close> of the source is
  never read and is left out.
\<close>

definition moveUp :: "GameMap \<Rightarrow> Character \<Rightarrow> GameMap \<times> Character" where
  "moveUp m c =
     (let x = currentPositionX c; y = currentPositionY c;
          m1 = clearCell m x y;
          x' = x - 1;
          m2 = setCell m1 x' y (typeOnMap c)
      in (m2, c\<lparr>currentPositionX := x'\<rparr>))"

definition moveDown :: "GameMap \<Rightarrow> Character \<Rightarrow> GameMap \<times> Character" where
  "moveDown m c =
     (let x = currentPositionX c; y = currentPositionY c;
          m1 = clearCell m x y;
          x' = x + 1;
          m2 = setCell m1 x' y (typeOnMap c)
      in (m2, c\<lparr>currentPositionX := x'\<rparr>))"

definition moveLeft :: "GameMap \<Rightarrow> Character \<Rightarrow> GameMap \<times> Character" where
  "moveLeft m c =
     (let x = currentPositionX c; y = currentPositionY c;
          m1 = clearCell m x y;
          y' = y - 1;
          m2 = setCell m1 x y' (typeOnMap c)
      in (m2, c\<lparr>currentPositionY := y'\<rparr>))"

definition moveRight :: "GameMap \<Rightarrow> Character \<Rightarrow> GameMap \<times> Character" where
  "moveRight m c =
     (let x = currentPositionX c; y = currentPositionY c;
          m1 = clearCell m x y;
          y' = y + 1;
          m2 = setCell m1 x y' (typeOnMap c)
      in (m2, c\<lparr>currentPositionY := y'\<rparr>))"

text \<open>
  \<^verbatim>\<open>AggressorStrategy::moveCloserToHuman\<close> (lines 35--61). Both \<^verbatim>\<open>humanPosX\<close> and
  \<^verbatim>\<open>humanPosY\<close> are read at index 0 of the human's position, as in the source.
\<close>

definition moveCloserToHuman :: "GameMap \<Rightarrow> Character \<Rightarrow> GameMap \<times> Character" where
  "moveCloserToHuman m c =
     (let charPosX = currentPositionX c;
          charPosY = currentPositionY c;
          humanPosX = getHumanPosition m ! 0;
          humanPosY = getHumanPosition m ! 0;
          originalDistance = shortestDistanceToHuman charPosX charPosY humanPosX humanPosY
      in if originalDistance \<noteq> 0 then
           if charPosX > 0 \<and>
              getCell m (charPosX - 1) charPosY = CHR '' '' \<and>
              shortestDistanceToHuman (charPosX - 1) charPosY humanPosX humanPosY
                \<le> originalDistance
           then moveUp m c
           else if charPosY > 0 \<and>
              getCell m charPosX (charPosY - 1) = CHR '' '' \<and>
              shortestDistanceToHuman charPosX (charPosY - 1) humanPosX humanPosY
                \<le> originalDistance
           then moveLeft m c
           else if charPosX < getMapWidth m - 1 \<and>
              getCell m (charPosX + 1) charPosY = CHR '' '' \<and>
              shortestDistanceToHuman (charPosX + 1) charPosY humanPosX humanPosY
                \<le> originalDistance
           then moveDown m c
           else if charPosY < getMapLength m - 1 \<and>
              getCell m charPosX (charPosY + 1) = CHR '' '' \<and>
              shortestDistanceToHuman charPosX (charPosY + 1) humanPosX humanPosY
                \<le> originalDistance
           then moveRight m c
           else (m, c)
         else (m, c))"

section \<open>Attack\<close>

text \<open>
  The scan of \<^verbatim>\<open>attackCharacterAtPosition\<close> (lines 157--163): the pointer
  \<^verbatim>\<open>charBeingAttacked\<close> starts uninitialised (\<open>None\<close>) and is overwritten at every
  registry entry whose coordinates match; the loop never breaks. The pointer is the
  entry's index in \<^verbatim>\<open>Global::gameCharacters\<close>.
\<close>

fun scanRegistry :: "Character list \<Rightarrow> int \<Rightarrow> int \<Rightarrow> nat \<Rightarrow> nat option \<Rightarrow> nat option" where
  "scanRegistry [] charPosX charPosY i charBeingAttacked = charBeingAttacked"
| "scanRegistry (g # gs) charPosX charPosY i charBeingAttacked =
     scanRegistry gs charPosX charPosY (Suc i)
       (if currentPositionX g = charPosX \<and> currentPositionY g = charPosY
        then Some i else charBeingAttacked)"

text \<open>Lines 165--177, applied to the character the pointer refers to.\<close>

definition strike :: "Character \<Rightarrow> Character" where
  "strike t =
     (let t1 = (if typeOnMap t = CHR ''C''
                then t\<lparr>typeOnMap := CHR ''O'', strategy := AggressorStrategy\<rparr>
                else t);
          tempHP = hitPoints t1
      in t1\<lparr>hitPoints := wrapInt (tempHP - 1)\<rparr>)"

text \<open>
  \<^verbatim>\<open>AggressorStrategy::attackCharacterAtPosition\<close> (lines 155--178) on the global
  registry, which is passed in and returned. The parameter \<^verbatim>\<open>c\<close> of the source is never
  read and is left out. Dereferencing the pointer when no entry matched is undefined
  behaviour; the model answers \<open>None\<close> there and \<open>Some\<close> of the new registry otherwise.
\<close>

definition attackCharacterAtPosition :: "Character list \<Rightarrow> int \<Rightarrow> int \<Rightarrow> Character list option" where
  "attackCharacterAtPosition gameCharacters charPosX charPosY =
     (case scanRegistry gameCharacters charPosX charPosY 0 None of
        None \<Rightarrow> None
      | Some i \<Rightarrow> Some (gameCharacters[i := strike (gameCharacters ! i)]))"

text \<open>
  \<^verbatim>\<open>AggressorStrategy::canAttackOneAdjacentCharacter\<close> (lines 125--149). It reads the
  map and the character and changes only the registry. The fourth branch tests the cell
  \<open>(x, y - 1)\<close> and attacks the cell \<open>(x, y + 1)\<close>, as the source does.
\<close>

definition canAttackOneAdjacentCharacter ::
  "GameMap \<Rightarrow> Character \<Rightarrow> Character list \<Rightarrow> Character list option" where
  "canAttackOneAdjacentCharacter m c gameCharacters =
     (let charPosX = currentPositionX c;
          charPosY = currentPositionY c
      in if charPosX > 0 \<and>
            (getCell m (charPosX - 1) charPosY = CHR ''S'' \<or>
             getCell m (charPosX - 1) charPosY = CHR ''C'' \<or>
             getCell m (charPosX - 1) charPosY = CHR ''O'')
         then attackCharacterAtPosition gameCharacters (charPosX - 1) charPosY
         else if charPosY > 0 \<and>
            (getCell m charPosX (charPosY - 1) = CHR ''S'' \<or>
             getCell m charPosX (charPosY - 1) = CHR ''C'' \<or>
             getCell m charPosX (charPosY - 1) = CHR ''O'')
         then attackCharacterAtPosition gameCharacters charPosX (charPosY - 1)
         else if charPosX < getMapWidth m - 1 \<and>
            (getCell m (charPosX + 1) charPosY = CHR ''S'' \<or>
             getCell m (charPosX + 1) charPosY = CHR ''C'' \<or>
             getCell m (charPosX + 1) charPosY = CHR ''O'')
         then attackCharacterAtPosition gameCharacters (charPosX + 1) charPosY
         else if charPosY < getMapLength m - 1 \<and>
            (getCell m charPosX (charPosY - 1) = CHR ''S'' \<or>
             getCell m charPosX (charPosY - 1) = CHR ''C'' \<or>
             getCell m charPosX (charPosY - 1) = CHR ''O'')
         then attackCharacterAtPosition gameCharacters charPosX (charPosY + 1)
         else Some gameCharacters)"

section \<open>The turn\<close>

text \<open>
  \<^verbatim>\<open>execute\<close> receives \<^verbatim>\<open>Character& c\<close> while \<^verbatim>\<open>attackCharacterAtPosition\<close>
  works on \<^verbatim>\<open>Global::gameCharacters\<close>, so the two may share the object. The state
  holds the map, the registry, one character object outside the registry, and the
  characters rendered so far; a reference is an index of the registry or the outside
  object.
\<close>

datatype CharRef = Registered nat | Detached

record World =
  worldMap :: GameMap
  gameCharacters :: "Character list"
  detached :: Character
  console :: "Character list"

definition deref :: "World \<Rightarrow> CharRef \<Rightarrow> Character" where
  "deref w r = (case r of Registered i \<Rightarrow> gameCharacters w ! i | Detached \<Rightarrow> detached w)"

definition assign :: "World \<Rightarrow> CharRef \<Rightarrow> Character \<Rightarrow> World" where
  "assign w r c =
     (case r of
        Registered i \<Rightarrow> w\<lparr>gameCharacters := (gameCharacters w)[i := c]\<rparr>
      | Detached \<Rightarrow> w\<lparr>detached := c\<rparr>)"

definition validRef :: "World \<Rightarrow> CharRef \<Rightarrow> bool" where
  "validRef w r = (case r of Registered i \<Rightarrow> i < length (gameCharacters w) | Detached \<Rightarrow> True)"

text \<open>Modelled from the spec: \<^verbatim>\<open>Character::displayCharacter()\<close>, the render operation;
  it only records the character it shows.\<close>

definition displayCharacter :: "World \<Rightarrow> Character \<Rightarrow> World" where
  "displayCharacter w c = w\<lparr>console := console w @ [c]\<rparr>"

text \<open>
  \<^verbatim>\<open>AggressorStrategy::execute\<close> (lines 24--30). \<open>None\<close> is the undefined behaviour of
  the attack.
\<close>

definition execute :: "World \<Rightarrow> CharRef \<Rightarrow> World option" where
  "execute w r =
     (if hitPoints (deref w r) > 0 then
        (let w1 = displayCharacter w (deref w r);
             (m', c') = moveCloserToHuman (worldMap w1) (deref w1 r);
             w2 = assign (w1\<lparr>worldMap := m'\<rparr>) r c'
         in case canAttackOneAdjacentCharacter (worldMap w2) (deref w2 r) (gameCharacters w2) of
              None \<Rightarrow> None
            | Some g \<Rightarrow> Some (w2\<lparr>gameCharacters := g\<rparr>))
      else Some w)"

section \<open>Predicates of the specification\<close>

text \<open>The test of the registry scan: a character's recorded coordinates are \<open>(x, y)\<close>.\<close>

definition atPosition :: "Character \<Rightarrow> int \<Rightarrow> int \<Rightarrow> bool" where
  "atPosition g x y = (currentPositionX g = x \<and> currentPositionY g = y)"

text \<open>The grid bounds: \<open>0 \<le> x < width\<close> and \<open>0 \<le> y < length\<close>.\<close>

definition inGrid :: "GameMap \<Rightarrow> int \<Rightarrow> int \<Rightarrow> bool" where
  "inGrid m x y = (0 \<le> x \<and> x < getMapWidth m \<and> 0 \<le> y \<and> y < getMapLength m)"

text \<open>
  The distance that \<^verbatim>\<open>moveCloserToHuman\<close> computes for a cell: the Manhattan distance
  to the point whose two coordinates are both entry 0 of the human's position.
\<close>

definition computedDistance :: "GameMap \<Rightarrow> int \<Rightarrow> int \<Rightarrow> int" where
  "computedDistance m x y =
     shortestDistanceToHuman x y (getHumanPosition m ! 0) (getHumanPosition m ! 0)"

text \<open>The four candidate cells in the order up, left, down, right of the source
  (\<^verbatim>\<open>moveUp\<close> decrements \<open>x\<close>, \<^verbatim>\<open>moveLeft\<close> decrements \<open>y\<close>).\<close>

definition candidateCells :: "Character \<Rightarrow> (int \<times> int) list" where
  "candidateCells c =
     (let x = currentPositionX c; y = currentPositionY c
      in [(x - 1, y), (x, y - 1), (x + 1, y), (x, y + 1)])"

text \<open>A candidate is acceptable when it is inside the grid, holds the blank and its
  computed distance does not exceed the computed distance of the current cell.\<close>

definition acceptable :: "GameMap \<Rightarrow> Character \<Rightarrow> int \<times> int \<Rightarrow> bool" where
  "acceptable m c p =
     (inGrid m (fst p) (snd p) \<and> getCell m (fst p) (snd p) = CHR '' '' \<and>
      computedDistance m (fst p) (snd p)
        \<le> computedDistance m (currentPositionX c) (currentPositionY c))"

text \<open>The effect of a one-cell move to \<open>p\<close>: the old cell is cleared, the symbol is written
  at \<open>p\<close> and the recorded position becomes \<open>p\<close>.\<close>

definition placeAt :: "GameMap \<Rightarrow> Character \<Rightarrow> int \<times> int \<Rightarrow> GameMap \<times> Character" where
  "placeAt m c p =
     (setCell (clearCell m (currentPositionX c) (currentPositionY c)) (fst p) (snd p) (typeOnMap c),
      c\<lparr>currentPositionX := fst p, currentPositionY := snd p\<rparr>)"

text \<open>
  The movement rule as the specification words it, aimed at an arbitrary target
  \<open>(tx, ty)\<close>: the candidates in the fixed order, each tested for bounds, emptiness and
  a Manhattan distance to the target that does not grow. It is compared below with what
  \<^verbatim>\<open>moveCloserToHuman\<close> does for a human at \<open>(hx, hy)\<close>.
\<close>

definition moveCloserToPoint :: "int \<Rightarrow> int \<Rightarrow> GameMap \<Rightarrow> Character \<Rightarrow> GameMap \<times> Character" where
  "moveCloserToPoint tx ty m c =
     (let x = currentPositionX c; y = currentPositionY c;
          d = shortestDistanceToHuman x y tx ty
      in if d \<noteq> 0 then
           if x > 0 \<and> getCell m (x - 1) y = CHR '' '' \<and>
              shortestDistanceToHuman (x - 1) y tx ty \<le> d then moveUp m c
           else if y > 0 \<and> getCell m x (y - 1) = CHR '' '' \<and>
              shortestDistanceToHuman x (y - 1) tx ty \<le> d then moveLeft m c
           else if x < getMapWidth m - 1 \<and> getCell m (x + 1) y = CHR '' '' \<and>
              shortestDistanceToHuman (x + 1) y tx ty \<le> d then moveDown m c
           else if y < getMapLength m - 1 \<and> getCell m x (y + 1) = CHR '' '' \<and>
              shortestDistanceToHuman x (y + 1) tx ty \<le> d then moveRight m c
           else (m, c)
         else (m, c))"

text \<open>The state invariant of the specification, in two parts: no two registered
  characters record the same cell, and the grid shows every registered character's
  symbol at its recorded position.\<close>

definition onePerCell :: "Character list \<Rightarrow> bool" where
  "onePerCell reg = distinct (map (\<lambda>g. (currentPositionX g, currentPositionY g)) reg)"

definition symbolsOnGrid :: "GameMap \<Rightarrow> Character list \<Rightarrow> bool" where
  "symbolsOnGrid m reg =
     (\<forall>g \<in> set reg. getCell m (currentPositionX g) (currentPositionY g) = typeOnMap g)"

definition stateInvariant :: "GameMap \<Rightarrow> Character list \<Rightarrow> bool" where
  "stateInvariant m reg = (onePerCell reg \<and> symbolsOnGrid m reg)"

text \<open>A cell is occupied when it shows one of the three character symbols that
  \<^verbatim>\<open>canAttackOneAdjacentCharacter\<close> tests for.\<close>

definition occupied :: "GameMap \<Rightarrow> int \<Rightarrow> int \<Rightarrow> bool" where
  "occupied m x y =
     (getCell m x y = CHR ''S'' \<or> getCell m x y = CHR ''C'' \<or> getCell m x y = CHR ''O'')"

text \<open>Map and registry are consistent when every occupied cell has a registry entry
  with the same coordinates.\<close>

definition mapRegistryConsistent :: "GameMap \<Rightarrow> Character list \<Rightarrow> bool" where
  "mapRegistryConsistent m reg =
     (\<forall>x y. occupied m x y \<longrightarrow> (\<exists>g \<in> set reg. atPosition g x y))"

text \<open>No character symbol is answered outside the grid bounds.\<close>

definition occupiedOnlyInGrid :: "GameMap \<Rightarrow> bool" where
  "occupiedOnlyInGrid m = (\<forall>x y. occupied m x y \<longrightarrow> inGrid m x y)"

section \<open>Example states\<close>

text \<open>
  Concrete states for evaluating the functions: a 10 by 10 arena with the human at
  \<open>(2, 7)\<close>, and 3 by 3 maps on which two characters stand side by side; on the last
  of them the cell \<open>(0, -1)\<close>, outside the grid, answers a character symbol.
\<close>

definition blankGrid :: "int \<times> int \<Rightarrow> char" where
  "blankGrid = (\<lambda>p. CHR '' '')"

definition hunter :: Character where
  "hunter = \<lparr>currentPositionX = 2, currentPositionY = 5, hitPoints = 3,
     typeOnMap = CHR ''O'', strategy = AggressorStrategy\<rparr>"

definition friendly :: Character where
  "friendly = \<lparr>currentPositionX = 1, currentPositionY = 2, hitPoints = 3,
     typeOnMap = CHR ''C'', strategy = FriendlyStrategy\<rparr>"

definition rival :: Character where
  "rival = \<lparr>currentPositionX = 1, currentPositionY = 2, hitPoints = 5,
     typeOnMap = CHR ''O'', strategy = AggressorStrategy\<rparr>"

definition brawler :: Character where
  "brawler = \<lparr>currentPositionX = 1, currentPositionY = 1, hitPoints = 3,
     typeOnMap = CHR ''O'', strategy = AggressorStrategy\<rparr>"

definition bystander :: Character where
  "bystander = \<lparr>currentPositionX = 0, currentPositionY = 1, hitPoints = 3,
     typeOnMap = CHR ''C'', strategy = FriendlyStrategy\<rparr>"

definition sentinel :: Character where
  "sentinel = \<lparr>currentPositionX = 0, currentPositionY = 0, hitPoints = 3,
     typeOnMap = CHR ''O'', strategy = AggressorStrategy\<rparr>"

definition phantom :: Character where
  "phantom = \<lparr>currentPositionX = 0, currentPositionY = - 1, hitPoints = 3,
     typeOnMap = CHR ''S'', strategy = HumanPlayerStrategy\<rparr>"

definition arenaMap :: GameMap where
  "arenaMap = \<lparr>cells = blankGrid((2, 5) := CHR ''O'', (1, 2) := CHR ''C''),
     mapWidth = 10, mapLength = 10, humanX = 2, humanY = 7\<rparr>"

definition arena :: World where
  "arena = \<lparr>worldMap = arenaMap, gameCharacters = [hunter, friendly],
     detached = hunter, console = []\<rparr>"

definition duelMap :: GameMap where
  "duelMap = \<lparr>cells = blankGrid((1, 1) := CHR ''O'', (1, 2) := CHR ''C''),
     mapWidth = 3, mapLength = 3, humanX = 1, humanY = 1\<rparr>"

definition duel :: World where
  "duel = \<lparr>worldMap = duelMap, gameCharacters = [brawler, friendly],
     detached = brawler, console = []\<rparr>"

definition skirmishMap :: GameMap where
  "skirmishMap = \<lparr>cells = blankGrid((1, 1) := CHR ''O'', (0, 1) := CHR ''C''),
     mapWidth = 3, mapLength = 3, humanX = 1, humanY = 1\<rparr>"

definition skirmish :: World where
  "skirmish = \<lparr>worldMap = skirmishMap, gameCharacters = [brawler, bystander],
     detached = brawler, console = []\<rparr>"

definition edgeMap :: GameMap where
  "edgeMap = \<lparr>cells = blankGrid((0, 0) := CHR ''O'', (0, - 1) := CHR ''S''),
     mapWidth = 3, mapLength = 3, humanX = 0, humanY = 0\<rparr>"

definition edge :: World where
  "edge = \<lparr>worldMap = edgeMap, gameCharacters = [sentinel, phantom],
     detached = sentinel, console = []\<rparr>"

section \<open>The registry scan and the strike\<close>

lemmas demo_defs = blankGrid_def hunter_def friendly_def rival_def arenaMap_def arena_def
  brawler_def bystander_def sentinel_def phantom_def duelMap_def duel_def skirmishMap_def
  skirmish_def edgeMap_def edge_def

lemmas code_defs = getCell_def setCell_def clearCell_def getMapWidth_def getMapLength_def
  getHumanPosition_def shortestDistanceToHuman_def moveUp_def moveDown_def moveLeft_def
  moveRight_def moveCloserToHuman_def wrapInt_def strike_def attackCharacterAtPosition_def
  canAttackOneAdjacentCharacter_def deref_def assign_def validRef_def displayCharacter_def
  execute_def

lemma wrapInt_in_range:
  "- 2147483648 \<le> n \<Longrightarrow> n \<le> 2147483647 \<Longrightarrow> wrapInt n = n"
  by (simp add: wrapInt_def)

lemma strike_X: "currentPositionX (strike t) = currentPositionX t"
  by (simp add: strike_def Let_def)

lemma strike_Y: "currentPositionY (strike t) = currentPositionY t"
  by (simp add: strike_def Let_def)

lemma strike_at: "atPosition (strike t) x y = atPosition t x y"
  by (simp add: atPosition_def strike_X strike_Y)

lemma strike_symbol:
  "typeOnMap (strike t) = (if typeOnMap t = CHR ''C'' then CHR ''O'' else typeOnMap t)"
  by (simp add: strike_def Let_def)

lemma strike_strategy:
  "strategy (strike t) = (if typeOnMap t = CHR ''C'' then AggressorStrategy else strategy t)"
  by (simp add: strike_def Let_def)

lemma strike_not_friendly: "typeOnMap (strike t) \<noteq> CHR ''C''"
  by (simp add: strike_symbol)

lemma strike_hitPoints: "hitPoints (strike t) = wrapInt (hitPoints t - 1)"
  by (simp add: strike_def Let_def)

lemma scan_None_iff:
  "scanRegistry gs x y i acc = None \<longleftrightarrow> acc = None \<and> (\<forall>g\<in>set gs. \<not> atPosition g x y)"
  by (induction gs arbitrary: i acc) (auto simp: atPosition_def)

lemma scan_no_match:
  "(\<forall>g\<in>set gs. \<not> atPosition g x y) \<Longrightarrow> scanRegistry gs x y i acc = acc"
  by (induction gs arbitrary: i acc) (auto simp: atPosition_def)

lemma scan_last:
  "k < length gs \<Longrightarrow> atPosition (gs ! k) x y \<Longrightarrow>
   (\<forall>j. k < j \<and> j < length gs \<longrightarrow> \<not> atPosition (gs ! j) x y) \<Longrightarrow>
   scanRegistry gs x y i acc = Some (i + k)"
proof (induction gs arbitrary: i acc k)
  case Nil
  then show ?case by simp
next
  case (Cons g gs)
  show ?case
  proof (cases k)
    case 0
    have "\<forall>h\<in>set gs. \<not> atPosition h x y"
    proof
      fix h assume "h \<in> set gs"
      then obtain j where "j < length gs" "gs ! j = h" by (auto simp: in_set_conv_nth)
      with Cons.prems(3) 0 have "\<not> atPosition ((g # gs) ! Suc j) x y" by auto
      with \<open>gs ! j = h\<close> show "\<not> atPosition h x y" by simp
    qed
    then have "scanRegistry gs x y (Suc i) (Some i) = Some i" by (rule scan_no_match)
    with Cons.prems(2) 0 show ?thesis by (simp add: atPosition_def)
  next
    case (Suc k')
    have a: "k' < length gs" using Cons.prems(1) Suc by simp
    have b: "atPosition (gs ! k') x y" using Cons.prems(2) Suc by simp
    have c: "\<forall>j. k' < j \<and> j < length gs \<longrightarrow> \<not> atPosition (gs ! j) x y"
    proof (intro allI impI)
      fix j assume "k' < j \<and> j < length gs"
      then have "k < Suc j \<and> Suc j < length (g # gs)" using Suc by simp
      with Cons.prems(3) have "\<not> atPosition ((g # gs) ! Suc j) x y" by blast
      then show "\<not> atPosition (gs ! j) x y" by simp
    qed
    have "scanRegistry gs x y (Suc i) acc' = Some (Suc i + k')" for acc'
      by (rule Cons.IH [OF a b c])
    then show ?thesis using Suc by simp
  qed
qed

lemma scan_snoc:
  "scanRegistry (gs @ [g]) x y i acc =
     (if atPosition g x y then Some (i + length gs) else scanRegistry gs x y i acc)"
  by (induction gs arbitrary: i acc) (simp_all add: atPosition_def)

lemma scan_Some_D:
  "scanRegistry gs x y 0 None = Some k \<Longrightarrow>
   k < length gs \<and> atPosition (gs ! k) x y \<and>
   (\<forall>j. k < j \<and> j < length gs \<longrightarrow> \<not> atPosition (gs ! j) x y)"
proof (induction gs arbitrary: k rule: rev_induct)
  case Nil
  then show ?case by simp
next
  case (snoc g gs)
  show ?case
  proof (cases "atPosition g x y")
    case True
    with snoc.prems have "k = length gs" by (simp add: scan_snoc)
    with True show ?thesis by auto
  next
    case False
    with snoc.prems have "scanRegistry gs x y 0 None = Some k" by (simp add: scan_snoc)
    from snoc.IH [OF this] have k: "k < length gs" and a: "atPosition (gs ! k) x y"
      and n: "\<forall>j. k < j \<and> j < length gs \<longrightarrow> \<not> atPosition (gs ! j) x y" by simp_all
    have "\<not> atPosition ((gs @ [g]) ! j) x y" if "k < j" "j < length (gs @ [g])" for j
    proof (cases "j < length gs")
      case True
      with n that show ?thesis by (simp add: nth_append)
    next
      case False
      with that have "j = length gs" by simp
      with \<open>\<not> atPosition g x y\<close> show ?thesis by simp
    qed
    with k a show ?thesis by (simp add: nth_append)
  qed
qed

lemma scan_positions:
  "map (\<lambda>g. (currentPositionX g, currentPositionY g)) gs =
   map (\<lambda>g. (currentPositionX g, currentPositionY g)) hs \<Longrightarrow>
   scanRegistry gs x y i acc = scanRegistry hs x y i acc"
proof (induction gs arbitrary: hs i acc)
  case Nil
  then show ?case by simp
next
  case (Cons g gs)
  then obtain h hs' where "hs = h # hs'" by (cases hs) auto
  with Cons show ?case by auto
qed

lemma attack_Some_iff:
  "attackCharacterAtPosition reg x y = Some reg' \<longleftrightarrow>
   (\<exists>k. scanRegistry reg x y 0 None = Some k \<and> reg' = reg[k := strike (reg ! k)])"
  by (auto simp: attackCharacterAtPosition_def split: option.splits)

lemma attack_None_iff:
  "attackCharacterAtPosition reg x y = None \<longleftrightarrow> (\<forall>g \<in> set reg. \<not> atPosition g x y)"
proof -
  have "attackCharacterAtPosition reg x y = None \<longleftrightarrow> scanRegistry reg x y 0 None = None"
    by (simp add: attackCharacterAtPosition_def split: option.splits)
  then show ?thesis by (simp add: scan_None_iff)
qed

lemma attack_last:
  assumes "k < length reg" "atPosition (reg ! k) x y"
    "\<forall>j. k < j \<and> j < length reg \<longrightarrow> \<not> atPosition (reg ! j) x y"
  shows "attackCharacterAtPosition reg x y = Some (reg[k := strike (reg ! k)])"
  using scan_last [OF assms, of 0 None] by (simp add: attackCharacterAtPosition_def)

lemma attack_positions:
  "attackCharacterAtPosition reg x y = Some reg' \<Longrightarrow>
   map (\<lambda>g. (currentPositionX g, currentPositionY g)) reg' =
   map (\<lambda>g. (currentPositionX g, currentPositionY g)) reg"
  by (auto simp: attack_Some_iff map_update strike_X strike_Y dest!: scan_Some_D
      intro!: nth_equalityI simp: nth_list_update)

lemma attack_target:
  assumes "attackCharacterAtPosition reg x y = Some reg'"
  obtains k where "k < length reg" "atPosition (reg ! k) x y"
    "\<forall>j. k < j \<and> j < length reg \<longrightarrow> \<not> atPosition (reg ! j) x y"
    "reg' = reg[k := strike (reg ! k)]"
proof -
  from assms obtain k where s: "scanRegistry reg x y 0 None = Some k"
    and r: "reg' = reg[k := strike (reg ! k)]" unfolding attack_Some_iff by blast
  from scan_Some_D [OF s] r that show thesis by blast
qed

section \<open>One step of movement\<close>

lemma moveUp_placeAt: "moveUp m c = placeAt m c (currentPositionX c - 1, currentPositionY c)"
  by (simp add: moveUp_def placeAt_def Let_def)

lemma moveDown_placeAt: "moveDown m c = placeAt m c (currentPositionX c + 1, currentPositionY c)"
  by (simp add: moveDown_def placeAt_def Let_def)

lemma moveLeft_placeAt: "moveLeft m c = placeAt m c (currentPositionX c, currentPositionY c - 1)"
  by (simp add: moveLeft_def placeAt_def Let_def)

lemma moveRight_placeAt: "moveRight m c = placeAt m c (currentPositionX c, currentPositionY c + 1)"
  by (simp add: moveRight_def placeAt_def Let_def)

lemma placeAt_simps:
  "currentPositionX (snd (placeAt m c p)) = fst p"
  "currentPositionY (snd (placeAt m c p)) = snd p"
  "getMapWidth (fst (placeAt m c p)) = getMapWidth m"
  "getMapLength (fst (placeAt m c p)) = getMapLength m"
  by (simp_all add: placeAt_def setCell_def clearCell_def getMapWidth_def getMapLength_def)

lemma placeAt_getCell:
  "getCell (fst (placeAt m c p)) x y =
     (if (x, y) = p then typeOnMap c
      else if (x, y) = (currentPositionX c, currentPositionY c) then CHR '' ''
      else getCell m x y)"
  by (simp add: placeAt_def getCell_def setCell_def clearCell_def)

lemma candidate_step:
  "p \<in> set (candidateCells c) \<Longrightarrow>
   \<bar>fst p - currentPositionX c\<bar> + \<bar>snd p - currentPositionY c\<bar> = 1"
  by (auto simp: candidateCells_def Let_def)

lemma moveCloser_find:
  assumes "inGrid m (currentPositionX c) (currentPositionY c)"
  shows "moveCloserToHuman m c =
     (case find (acceptable m c) (candidateCells c) of
        None \<Rightarrow> (m, c)
      | Some p \<Rightarrow> placeAt m c p)"
proof -
  let ?x = "currentPositionX c" and ?y = "currentPositionY c"
  have g: "0 \<le> ?x" "?x < getMapWidth m" "0 \<le> ?y" "?y < getMapLength m"
    using assms by (simp_all add: inGrid_def)
  have up: "acceptable m c (?x - 1, ?y) \<longleftrightarrow>
      ?x > 0 \<and> getCell m (?x - 1) ?y = CHR '' '' \<and>
      computedDistance m (?x - 1) ?y \<le> computedDistance m ?x ?y"
    using g by (auto simp: acceptable_def inGrid_def)
  have left: "acceptable m c (?x, ?y - 1) \<longleftrightarrow>
      ?y > 0 \<and> getCell m ?x (?y - 1) = CHR '' '' \<and>
      computedDistance m ?x (?y - 1) \<le> computedDistance m ?x ?y"
    using g by (auto simp: acceptable_def inGrid_def)
  have down: "acceptable m c (?x + 1, ?y) \<longleftrightarrow>
      ?x < getMapWidth m - 1 \<and> getCell m (?x + 1) ?y = CHR '' '' \<and>
      computedDistance m (?x + 1) ?y \<le> computedDistance m ?x ?y"
    using g by (auto simp: acceptable_def inGrid_def)
  have right: "acceptable m c (?x, ?y + 1) \<longleftrightarrow>
      ?y < getMapLength m - 1 \<and> getCell m ?x (?y + 1) = CHR '' '' \<and>
      computedDistance m ?x (?y + 1) \<le> computedDistance m ?x ?y"
    using g by (auto simp: acceptable_def inGrid_def)
  have zero: "\<not> acceptable m c p" if "computedDistance m ?x ?y = 0" "p \<in> set (candidateCells c)" for p
    using that by (auto simp: acceptable_def candidateCells_def computedDistance_def
        shortestDistanceToHuman_def Let_def)
  show ?thesis
  proof (cases "computedDistance m ?x ?y = 0")
    case True
    then have "find (acceptable m c) (candidateCells c) = None"
      using zero by (simp add: find_None_iff)
    moreover have "moveCloserToHuman m c = (m, c)"
      using True by (simp add: moveCloserToHuman_def computedDistance_def Let_def)
    ultimately show ?thesis by simp
  next
    case False
    have "moveCloserToHuman m c =
       (if acceptable m c (?x - 1, ?y) then moveUp m c
        else if acceptable m c (?x, ?y - 1) then moveLeft m c
        else if acceptable m c (?x + 1, ?y) then moveDown m c
        else if acceptable m c (?x, ?y + 1) then moveRight m c
        else (m, c))"
      unfolding up left down right using False
      by (simp add: moveCloserToHuman_def computedDistance_def Let_def)
    then show ?thesis
      by (simp add: candidateCells_def Let_def moveUp_placeAt moveLeft_placeAt
          moveDown_placeAt moveRight_placeAt)
  qed
qed

lemma moveCloser_result:
  assumes "inGrid m (currentPositionX c) (currentPositionY c)"
  shows "moveCloserToHuman m c = (m, c) \<or>
     (\<exists>p \<in> set (candidateCells c). acceptable m c p \<and> moveCloserToHuman m c = placeAt m c p)"
proof (cases "find (acceptable m c) (candidateCells c)")
  case None
  then show ?thesis by (simp add: moveCloser_find [OF assms])
next
  case (Some p)
  then obtain i where "i < length (candidateCells c)" "acceptable m c (candidateCells c ! i)"
    "p = candidateCells c ! i" unfolding find_Some_iff by blast
  then have "p \<in> set (candidateCells c)" "acceptable m c p" by simp_all
  moreover have "moveCloserToHuman m c = placeAt m c p"
    using Some by (simp add: moveCloser_find [OF assms])
  ultimately show ?thesis by blast
qed

lemma moveCloser_blank:
  "moveCloserToHuman m c = (m, c) \<or>
   (\<exists>p. getCell m (fst p) (snd p) = CHR '' '' \<and> moveCloserToHuman m c = placeAt m c p)"
proof -
  let ?x = "currentPositionX c" and ?y = "currentPositionY c"
  have "moveCloserToHuman m c = (m, c) \<or>
    (getCell m (?x - 1) ?y = CHR '' '' \<and> moveCloserToHuman m c = moveUp m c) \<or>
    (getCell m ?x (?y - 1) = CHR '' '' \<and> moveCloserToHuman m c = moveLeft m c) \<or>
    (getCell m (?x + 1) ?y = CHR '' '' \<and> moveCloserToHuman m c = moveDown m c) \<or>
    (getCell m ?x (?y + 1) = CHR '' '' \<and> moveCloserToHuman m c = moveRight m c)"
    unfolding moveCloserToHuman_def Let_def by (simp split: if_splits)
  then show ?thesis
    unfolding moveUp_placeAt moveLeft_placeAt moveDown_placeAt moveRight_placeAt
    by (metis fst_conv snd_conv)
qed

lemma arena_move:
  "moveCloserToHuman arenaMap hunter = placeAt arenaMap hunter (2, 4)"
  by (simp add: demo_defs code_defs placeAt_def Let_def)

lemma arena_find: "find (acceptable arenaMap hunter) (candidateCells hunter) = Some (2, 4)"
  by (simp add: demo_defs code_defs acceptable_def candidateCells_def inGrid_def
      computedDistance_def Let_def)

section \<open>The turn as a whole\<close>

lemma canAttack_occupied:
  "canAttackOneAdjacentCharacter m c reg =
     (if currentPositionX c > 0 \<and> occupied m (currentPositionX c - 1) (currentPositionY c)
        then attackCharacterAtPosition reg (currentPositionX c - 1) (currentPositionY c)
      else if currentPositionY c > 0 \<and> occupied m (currentPositionX c) (currentPositionY c - 1)
        then attackCharacterAtPosition reg (currentPositionX c) (currentPositionY c - 1)
      else if currentPositionX c < getMapWidth m - 1 \<and>
          occupied m (currentPositionX c + 1) (currentPositionY c)
        then attackCharacterAtPosition reg (currentPositionX c + 1) (currentPositionY c)
      else if currentPositionY c < getMapLength m - 1 \<and>
          occupied m (currentPositionX c) (currentPositionY c - 1)
        then attackCharacterAtPosition reg (currentPositionX c) (currentPositionY c + 1)
      else Some reg)"
  unfolding canAttackOneAdjacentCharacter_def occupied_def Let_def ..

lemma canAttack_positions:
  "canAttackOneAdjacentCharacter m c reg = Some g \<Longrightarrow>
   map (\<lambda>g. (currentPositionX g, currentPositionY g)) g =
   map (\<lambda>g. (currentPositionX g, currentPositionY g)) reg"
  unfolding canAttackOneAdjacentCharacter_def Let_def
  by (auto split: if_splits dest: attack_positions)

lemma positions_nth:
  assumes "map (\<lambda>g. (currentPositionX g, currentPositionY g)) g =
     map (\<lambda>g. (currentPositionX g, currentPositionY g)) reg" "i < length reg"
  shows "currentPositionX (g ! i) = currentPositionX (reg ! i) \<and>
     currentPositionY (g ! i) = currentPositionY (reg ! i)"
proof -
  have l: "length g = length reg" using assms(1) by (rule map_eq_imp_length_eq)
  have "map (\<lambda>g. (currentPositionX g, currentPositionY g)) g ! i =
     map (\<lambda>g. (currentPositionX g, currentPositionY g)) reg ! i" using assms(1) by simp
  then show ?thesis using l assms(2) by simp
qed

lemma execute_alive:
  assumes "validRef w r" "0 < hitPoints (deref w r)" "execute w r = Some w'"
    "moveCloserToHuman (worldMap w) (deref w r) = (m', c')"
  shows "worldMap w' = m' \<and>
     currentPositionX (deref w' r) = currentPositionX c' \<and>
     currentPositionY (deref w' r) = currentPositionY c'"
proof (cases r)
  case (Registered i)
  let ?reg2 = "(gameCharacters w)[i := c']"
  have i: "i < length (gameCharacters w)" using assms(1) Registered by (simp add: validRef_def)
  from assms(2,3,4) Registered obtain g where
    g: "canAttackOneAdjacentCharacter m' (?reg2 ! i) ?reg2 = Some g"
    and w': "w' = (assign ((displayCharacter w (deref w r))\<lparr>worldMap := m'\<rparr>) r c')\<lparr>gameCharacters := g\<rparr>"
    by (auto simp: execute_def Let_def deref_def assign_def displayCharacter_def
        split: option.splits)
  from positions_nth [OF canAttack_positions [OF g]] i
  have "currentPositionX (g ! i) = currentPositionX c' \<and> currentPositionY (g ! i) = currentPositionY c'"
    by simp
  then show ?thesis using w' Registered
    by (simp add: deref_def assign_def displayCharacter_def)
next
  case Detached
  from assms(2,3,4) Detached show ?thesis
    by (auto simp: execute_def Let_def deref_def assign_def displayCharacter_def
        split: option.splits)
qed

lemma arena_execute:
  "execute arena (Registered 0) =
     Some \<lparr>worldMap = fst (placeAt arenaMap hunter (2, 4)),
       gameCharacters = [hunter\<lparr>currentPositionY := 4\<rparr>, friendly],
       detached = hunter, console = [hunter]\<rparr>"
  by (simp add: demo_defs code_defs placeAt_def Let_def)

section \<open>Movement towards the human\<close>

text \<open>
  C1. For a character on the grid, \<^verbatim>\<open>moveCloserToHuman\<close> takes the first of the
  candidates up, left, down, right that is inside the grid bounds, blank, and whose
  computed distance does not exceed the original one, and moves the character there; when
  no candidate qualifies nothing changes. The character moves at most one cell, and after
  a completed \<^verbatim>\<open>execute\<close> of a character with positive hit points its position and
  the map are the ones \<^verbatim>\<open>moveCloserToHuman\<close> produced. The source tests only the
  coordinate it changes against the bounds, which is the full bounds test exactly when
  the character starts on the grid; the map's cells are not defined outside it.
\<close>

theorem moveCloserToHuman_first_acceptable_candidate:
  assumes "m = worldMap w" "c = deref w r" "validRef w r" "0 < hitPoints c"
    "inGrid m (currentPositionX c) (currentPositionY c)"
  shows "moveCloserToHuman m c =
       (case find (acceptable m c) (candidateCells c) of
          None \<Rightarrow> (m, c)
        | Some p \<Rightarrow> placeAt m c p) \<and>
     \<bar>currentPositionX (snd (moveCloserToHuman m c)) - currentPositionX c\<bar> +
     \<bar>currentPositionY (snd (moveCloserToHuman m c)) - currentPositionY c\<bar> \<le> 1 \<and>
     (\<forall>w'. execute w r = Some w' \<longrightarrow>
        worldMap w' = fst (moveCloserToHuman m c) \<and>
        currentPositionX (deref w' r) = currentPositionX (snd (moveCloserToHuman m c)) \<and>
        currentPositionY (deref w' r) = currentPositionY (snd (moveCloserToHuman m c)))"
proof (intro conjI allI impI)
  show "moveCloserToHuman m c =
       (case find (acceptable m c) (candidateCells c) of
          None \<Rightarrow> (m, c)
        | Some p \<Rightarrow> placeAt m c p)"
    by (rule moveCloser_find [OF assms(5)])
next
  from moveCloser_result [OF assms(5)]
  show "\<bar>currentPositionX (snd (moveCloserToHuman m c)) - currentPositionX c\<bar> +
     \<bar>currentPositionY (snd (moveCloserToHuman m c)) - currentPositionY c\<bar> \<le> 1"
  proof
    assume "moveCloserToHuman m c = (m, c)"
    then show ?thesis by simp
  next
    assume "\<exists>p\<in>set (candidateCells c). acceptable m c p \<and> moveCloserToHuman m c = placeAt m c p"
    then obtain p where "p \<in> set (candidateCells c)" "moveCloserToHuman m c = placeAt m c p"
      by blast
    then show ?thesis using candidate_step [of p c] by (simp add: placeAt_simps)
  qed
next
  fix w' assume e: "execute w r = Some w'"
  have "moveCloserToHuman (worldMap w) (deref w r) =
      (fst (moveCloserToHuman m c), snd (moveCloserToHuman m c))"
    using assms(1,2) by simp
  from execute_alive [OF assms(3) _ e this] assms(2,4)
  show "worldMap w' = fst (moveCloserToHuman m c)"
    "currentPositionX (deref w' r) = currentPositionX (snd (moveCloserToHuman m c))"
    "currentPositionY (deref w' r) = currentPositionY (snd (moveCloserToHuman m c))"
    by simp_all
qed

theorem moveCloserToHuman_first_acceptable_candidate_witness:
  "validRef arena (Registered 0) \<and> 0 < hitPoints hunter \<and> inGrid arenaMap 2 5 \<and>
   find (acceptable arenaMap hunter) (candidateCells hunter) = Some (2, 4) \<and>
   moveCloserToHuman arenaMap hunter = placeAt arenaMap hunter (2, 4) \<and>
   (\<exists>w'. execute arena (Registered 0) = Some w' \<and>
      currentPositionX (deref w' (Registered 0)) = 2 \<and>
      currentPositionY (deref w' (Registered 0)) = 4)"
proof -
  have h: "arenaMap = worldMap arena" "hunter = deref arena (Registered 0)"
    "validRef arena (Registered 0)" "0 < hitPoints hunter"
    "inGrid arenaMap (currentPositionX hunter) (currentPositionY hunter)"
    by (simp_all add: arena_def deref_def validRef_def hunter_def inGrid_def arenaMap_def
        getMapWidth_def getMapLength_def)
  have g: "inGrid arenaMap 2 5" using h(5) by (simp add: hunter_def)
  note t = moveCloserToHuman_first_acceptable_candidate [OF h]
  have m: "moveCloserToHuman arenaMap hunter = placeAt arenaMap hunter (2, 4)"
    using t by (simp add: arena_find)
  obtain w' where e: "execute arena (Registered 0) = Some w'" by (simp add: arena_execute)
  with t m have "currentPositionX (deref w' (Registered 0)) = 2"
    "currentPositionY (deref w' (Registered 0)) = 4" by (simp_all add: placeAt_simps)
  with e m h g show ?thesis by (simp add: arena_find)
qed

text \<open>
  C2. For a human at \<open>(hx, hy)\<close>, \<^verbatim>\<open>moveCloserToHuman\<close> behaves as the movement rule
  aimed at \<open>(hx, hx)\<close>: both target coordinates come from index 0, and the human's second
  coordinate has no influence on the move.
\<close>

theorem moveCloserToHuman_reads_one_axis:
  assumes "getHumanPosition m = [hx, hy]"
  shows "moveCloserToHuman m c = moveCloserToPoint hx hx m c \<and>
     moveCloserToHuman (m\<lparr>humanY := hy'\<rparr>) c =
       (fst (moveCloserToHuman m c)\<lparr>humanY := hy'\<rparr>, snd (moveCloserToHuman m c))"
proof
  show "moveCloserToHuman m c = moveCloserToPoint hx hx m c"
    using assms by (simp add: moveCloserToHuman_def moveCloserToPoint_def Let_def)
next
  have p: "fst (placeAt (m\<lparr>humanY := hy'\<rparr>) c q) = fst (placeAt m c q)\<lparr>humanY := hy'\<rparr>"
    "snd (placeAt (m\<lparr>humanY := hy'\<rparr>) c q) = snd (placeAt m c q)" for q
    by (simp_all add: placeAt_def setCell_def clearCell_def)
  have q: "placeAt (m\<lparr>humanY := hy'\<rparr>) c q = (fst (placeAt m c q)\<lparr>humanY := hy'\<rparr>, snd (placeAt m c q))" for q
    using p [of q] by (simp add: prod_eq_iff)
  show "moveCloserToHuman (m\<lparr>humanY := hy'\<rparr>) c =
       (fst (moveCloserToHuman m c)\<lparr>humanY := hy'\<rparr>, snd (moveCloserToHuman m c))"
    by (simp add: moveCloserToHuman_def Let_def getHumanPosition_def getCell_def
        getMapWidth_def getMapLength_def moveUp_placeAt moveLeft_placeAt moveDown_placeAt
        moveRight_placeAt q)
qed

text \<open>With the human at \<open>(2, 7)\<close> the target read is \<open>(2, 2)\<close>: the character at
  \<open>(2, 5)\<close> steps to \<open>(2, 4)\<close>, whereas the rule aimed at \<open>(2, 7)\<close> steps to \<open>(2, 6)\<close>.\<close>

theorem moveCloserToHuman_reads_one_axis_witness:
  "getHumanPosition arenaMap = [2, 7] \<and>
   moveCloserToHuman arenaMap hunter = moveCloserToPoint 2 2 arenaMap hunter \<and>
   currentPositionY (snd (moveCloserToHuman arenaMap hunter)) = 4 \<and>
   currentPositionY (snd (moveCloserToPoint 2 7 arenaMap hunter)) = 6"
proof -
  have h: "getHumanPosition arenaMap = [2, 7]" by (simp add: arenaMap_def getHumanPosition_def)
  have "currentPositionY (snd (moveCloserToPoint 2 2 arenaMap hunter)) = 4"
    by (simp add: demo_defs code_defs moveCloserToPoint_def Let_def)
  moreover have "currentPositionY (snd (moveCloserToPoint 2 7 arenaMap hunter)) = 6"
    by (simp add: demo_defs code_defs moveCloserToPoint_def Let_def)
  ultimately show ?thesis using moveCloserToHuman_reads_one_axis [OF h, of hunter] h by simp
qed

text \<open>
  C7. From a character on the grid, \<^verbatim>\<open>moveCloserToHuman\<close> leaves the character on the
  grid (whose dimensions do not change) and, when the position changes, the cell entered
  was blank; after a completed \<^verbatim>\<open>execute\<close> the character stands where the move put
  it. The four primitives themselves change the coordinate by one without any test.
\<close>

theorem execute_keeps_character_on_free_grid_cell:
  assumes "m = worldMap w" "c = deref w r" "validRef w r"
    "inGrid m (currentPositionX c) (currentPositionY c)"
    "moveCloserToHuman m c = (m', c')"
  shows "inGrid m' (currentPositionX c') (currentPositionY c') \<and>
     getMapWidth m' = getMapWidth m \<and> getMapLength m' = getMapLength m \<and>
     ((currentPositionX c', currentPositionY c') \<noteq> (currentPositionX c, currentPositionY c) \<longrightarrow>
        getCell m (currentPositionX c') (currentPositionY c') = CHR '' '') \<and>
     (\<forall>w'. execute w r = Some w' \<longrightarrow>
        inGrid (worldMap w') (currentPositionX (deref w' r)) (currentPositionY (deref w' r)) \<and>
        (currentPositionX (deref w' r), currentPositionY (deref w' r)) =
          (if 0 < hitPoints c then (currentPositionX c', currentPositionY c')
           else (currentPositionX c, currentPositionY c))) \<and>
     currentPositionX (snd (moveUp m c)) = currentPositionX c - 1 \<and>
     currentPositionX (snd (moveDown m c)) = currentPositionX c + 1 \<and>
     currentPositionY (snd (moveLeft m c)) = currentPositionY c - 1 \<and>
     currentPositionY (snd (moveRight m c)) = currentPositionY c + 1"
proof -
  have prim: "currentPositionX (snd (moveUp m c)) = currentPositionX c - 1 \<and>
     currentPositionX (snd (moveDown m c)) = currentPositionX c + 1 \<and>
     currentPositionY (snd (moveLeft m c)) = currentPositionY c - 1 \<and>
     currentPositionY (snd (moveRight m c)) = currentPositionY c + 1"
    by (simp add: moveUp_def moveDown_def moveLeft_def moveRight_def Let_def)
  have mv: "inGrid m' (currentPositionX c') (currentPositionY c') \<and>
     getMapWidth m' = getMapWidth m \<and> getMapLength m' = getMapLength m \<and>
     ((currentPositionX c', currentPositionY c') \<noteq> (currentPositionX c, currentPositionY c) \<longrightarrow>
        getCell m (currentPositionX c') (currentPositionY c') = CHR '' '')"
    using moveCloser_result [OF assms(4)]
  proof
    assume "moveCloserToHuman m c = (m, c)"
    with assms(4,5) show ?thesis by simp
  next
    assume "\<exists>p\<in>set (candidateCells c). acceptable m c p \<and> moveCloserToHuman m c = placeAt m c p"
    then obtain p where p: "acceptable m c p" "moveCloserToHuman m c = placeAt m c p" by blast
    with assms(5) have "m' = fst (placeAt m c p)" "c' = snd (placeAt m c p)" by simp_all
    with p(1) show ?thesis by (simp add: placeAt_simps acceptable_def inGrid_def)
  qed
  have ex: "inGrid (worldMap w') (currentPositionX (deref w' r)) (currentPositionY (deref w' r)) \<and>
        (currentPositionX (deref w' r), currentPositionY (deref w' r)) =
          (if 0 < hitPoints c then (currentPositionX c', currentPositionY c')
           else (currentPositionX c, currentPositionY c))" if e: "execute w r = Some w'" for w'
  proof (cases "0 < hitPoints c")
    case True
    from execute_alive [OF assms(3) _ e, of m' c'] True assms(1,2,5)
    have "worldMap w' = m'" "currentPositionX (deref w' r) = currentPositionX c'"
      "currentPositionY (deref w' r) = currentPositionY c'" by simp_all
    with mv True show ?thesis by simp
  next
    case False
    with e assms(2) have "w' = w" by (simp add: execute_def)
    with False assms(1,2,4) show ?thesis by simp
  qed
  from mv ex prim show ?thesis by blast
qed

theorem execute_keeps_character_on_free_grid_cell_witness:
  "validRef arena (Registered 0) \<and> inGrid arenaMap 2 5 \<and>
   moveCloserToHuman arenaMap hunter = placeAt arenaMap hunter (2, 4) \<and>
   inGrid (fst (placeAt arenaMap hunter (2, 4))) 2 4 \<and> getCell arenaMap 2 4 = CHR '' '' \<and>
   (\<exists>w'. execute arena (Registered 0) = Some w' \<and>
      inGrid (worldMap w') (currentPositionX (deref w' (Registered 0)))
        (currentPositionY (deref w' (Registered 0))))"
proof -
  have h: "arenaMap = worldMap arena" "hunter = deref arena (Registered 0)"
    "validRef arena (Registered 0)"
    "inGrid arenaMap (currentPositionX hunter) (currentPositionY hunter)"
    by (simp_all add: arena_def deref_def validRef_def hunter_def inGrid_def arenaMap_def
        getMapWidth_def getMapLength_def)
  have g: "inGrid arenaMap 2 5" using h(4) by (simp add: hunter_def)
  have m: "moveCloserToHuman arenaMap hunter =
     (fst (placeAt arenaMap hunter (2, 4)), snd (placeAt arenaMap hunter (2, 4)))"
    by (simp add: arena_move)
  note t = execute_keeps_character_on_free_grid_cell [OF h m]
  obtain w' where e: "execute arena (Registered 0) = Some w'" by (simp add: arena_execute)
  from t e have "inGrid (worldMap w') (currentPositionX (deref w' (Registered 0)))
        (currentPositionY (deref w' (Registered 0)))" by blast
  moreover from t have "inGrid (fst (placeAt arenaMap hunter (2, 4))) 2 4"
    "getCell arenaMap 2 4 = CHR '' ''"
    by (simp_all add: placeAt_simps hunter_def)
  ultimately show ?thesis using e h g arena_move by blast
qed

section \<open>The scan of the adjacent cells\<close>

text \<open>
  C3. The scan of the adjacent cells is meant to attack the first of \<open>(x - 1, y)\<close>,
  \<open>(x, y - 1)\<close>, \<open>(x + 1, y)\<close>, \<open>(x, y + 1)\<close> that shows a character symbol. The
  fourth branch tests \<open>(x, y - 1)\<close> again, so a character whose only neighbour stands at
  \<open>(x, y + 1)\<close> attacks nobody: on the 3 by 3 map the character at \<open>(1, 1)\<close> leaves the
  friendly character at \<open>(1, 2)\<close> untouched, in \<^verbatim>\<open>canAttackOneAdjacentCharacter\<close> and
  in a whole \<^verbatim>\<open>execute\<close>.
\<close>

theorem canAttack_skips_fourth_neighbour:
  "inGrid duelMap 1 1 \<and> inGrid duelMap 1 2 \<and> getCell duelMap 1 2 = CHR ''C'' \<and>
   atPosition brawler 1 1 \<and> atPosition friendly 1 2 \<and>
   canAttackOneAdjacentCharacter duelMap brawler [brawler, friendly] = Some [brawler, friendly] \<and>
   execute duel (Registered 0) = Some (duel\<lparr>console := [brawler]\<rparr>)"
  by (simp add: demo_defs code_defs inGrid_def atPosition_def Let_def)

text \<open>For a character with \<open>y > 0\<close> the fourth branch is dead code: the scan is the
  first three branches and nothing else.\<close>

lemma canAttack_fourth_branch_dead:
  assumes "0 < currentPositionY c"
  shows "canAttackOneAdjacentCharacter m c reg =
     (if 0 < currentPositionX c \<and> occupied m (currentPositionX c - 1) (currentPositionY c)
        then attackCharacterAtPosition reg (currentPositionX c - 1) (currentPositionY c)
      else if occupied m (currentPositionX c) (currentPositionY c - 1)
        then attackCharacterAtPosition reg (currentPositionX c) (currentPositionY c - 1)
      else if currentPositionX c < getMapWidth m - 1 \<and>
          occupied m (currentPositionX c + 1) (currentPositionY c)
        then attackCharacterAtPosition reg (currentPositionX c + 1) (currentPositionY c)
      else Some reg)"
proof (cases "occupied m (currentPositionX c) (currentPositionY c - 1)")
  case True
  with assms show ?thesis by (simp add: canAttack_occupied)
next
  case False
  with assms show ?thesis by (simp add: canAttack_occupied)
qed

section \<open>Attack resolution\<close>

text \<open>
  C4, as the code has it. Whenever some registry entry has the attacked coordinates, the
  attack succeeds and every entry but the attacked one keeps its hit points; when the
  attacked entry's hit points are a 32-bit value above the least one, \<open>-2147483648\<close>,
  they go down by exactly 1, whatever its symbol or strategy.
\<close>

theorem attack_decrements_hit_points:
  assumes "g \<in> set reg" "atPosition g x y"
  shows "\<exists>reg' k. attackCharacterAtPosition reg x y = Some reg' \<and>
           k < length reg \<and> atPosition (reg ! k) x y \<and> length reg' = length reg \<and>
           (- 2147483648 < hitPoints (reg ! k) \<and> hitPoints (reg ! k) \<le> 2147483647 \<longrightarrow>
              hitPoints (reg' ! k) = hitPoints (reg ! k) - 1) \<and>
           (\<forall>j. j < length reg \<and> j \<noteq> k \<longrightarrow> hitPoints (reg' ! j) = hitPoints (reg ! j))"
proof -
  have "scanRegistry reg x y 0 None \<noteq> None" using assms by (simp add: scan_None_iff) blast
  then obtain k where s: "scanRegistry reg x y 0 None = Some k" by blast
  from scan_Some_D [OF s] have k: "k < length reg" "atPosition (reg ! k) x y" by simp_all
  have a: "attackCharacterAtPosition reg x y = Some (reg[k := strike (reg ! k)])"
    using s by (simp add: attackCharacterAtPosition_def)
  have h: "hitPoints (strike (reg ! k)) = hitPoints (reg ! k) - 1"
    if "- 2147483648 < hitPoints (reg ! k) \<and> hitPoints (reg ! k) \<le> 2147483647"
    using that by (simp add: strike_hitPoints wrapInt_in_range)
  show ?thesis using a k h by (intro exI [of _ "reg[k := strike (reg ! k)]"] exI [of _ k]) simp
qed

theorem attack_decrements_hit_points_witness:
  "friendly \<in> set [hunter, friendly] \<and> atPosition friendly 1 2 \<and>
   - 2147483648 < hitPoints friendly \<and> hitPoints friendly \<le> 2147483647 \<and>
   (\<exists>reg'. attackCharacterAtPosition [hunter, friendly] 1 2 = Some reg' \<and>
      hitPoints (reg' ! 1) = 2 \<and> hitPoints (reg' ! 0) = 3)"
proof -
  have h: "friendly \<in> set [hunter, friendly]" "atPosition friendly 1 2"
    by (simp_all add: atPosition_def friendly_def)
  have b: "- 2147483648 < hitPoints friendly" "hitPoints friendly \<le> 2147483647"
    by (simp_all add: friendly_def)
  from attack_decrements_hit_points [OF h] obtain reg' k where
    a: "attackCharacterAtPosition [hunter, friendly] 1 2 = Some reg'"
    and k: "k < length [hunter, friendly]" "atPosition ([hunter, friendly] ! k) 1 2"
    and hp: "- 2147483648 < hitPoints ([hunter, friendly] ! k) \<and>
        hitPoints ([hunter, friendly] ! k) \<le> 2147483647 \<longrightarrow>
        hitPoints (reg' ! k) = hitPoints ([hunter, friendly] ! k) - 1"
    and o: "\<forall>j. j < length [hunter, friendly] \<and> j \<noteq> k \<longrightarrow>
        hitPoints (reg' ! j) = hitPoints ([hunter, friendly] ! j)" by blast
  have "k = 1" using k by (cases k) (auto simp: atPosition_def hunter_def)
  with hp o b have "hitPoints (reg' ! 1) = 2" "hitPoints (reg' ! 0) = 3"
    by (simp_all add: friendly_def hunter_def)
  with a h b show ?thesis by blast
qed

text \<open>
  At the least 32-bit value the subtraction of line 177 cannot store one less: the
  attacked entry ends with \<open>2147483647\<close>.
\<close>

theorem attack_wraps_lowest_hit_points:
  "atPosition (hunter\<lparr>hitPoints := - 2147483648\<rparr>) 2 5 \<and>
   attackCharacterAtPosition [hunter\<lparr>hitPoints := - 2147483648\<rparr>] 2 5 =
     Some [hunter\<lparr>hitPoints := 2147483647\<rparr>] \<and>
   hitPoints (hunter\<lparr>hitPoints := 2147483647\<rparr>) \<noteq>
     hitPoints (hunter\<lparr>hitPoints := - 2147483648\<rparr>) - 1"
  by (simp add: demo_defs code_defs atPosition_def Let_def)

text \<open>
  C5. A successful attack on an entry whose symbol is \<open>C\<close> sets its symbol to \<open>O\<close> and
  its strategy to \<^verbatim>\<open>AggressorStrategy\<close>. After any successful attack the target's symbol
  is not \<open>C\<close>, so a second attack at the same coordinates strikes the same entry
  without converting: symbols and strategies of the registry are the same after two
  attacks as after one.
\<close>

theorem attack_converts_friendly_once:
  assumes "attackCharacterAtPosition reg x y = Some reg'"
  shows "\<exists>k reg''. k < length reg \<and> atPosition (reg ! k) x y \<and>
     reg' = reg[k := strike (reg ! k)] \<and>
     (typeOnMap (reg ! k) = CHR ''C'' \<longrightarrow>
        typeOnMap (reg' ! k) = CHR ''O'' \<and> strategy (reg' ! k) = AggressorStrategy) \<and>
     typeOnMap (reg' ! k) \<noteq> CHR ''C'' \<and>
     attackCharacterAtPosition reg' x y = Some reg'' \<and>
     reg'' = reg'[k := strike (reg' ! k)] \<and>
     map typeOnMap reg'' = map typeOnMap reg' \<and>
     map strategy reg'' = map strategy reg'"
proof -
  from assms obtain k where k: "k < length reg" "atPosition (reg ! k) x y"
    and l: "\<forall>j. k < j \<and> j < length reg \<longrightarrow> \<not> atPosition (reg ! j) x y"
    and r: "reg' = reg[k := strike (reg ! k)]" by (rule attack_target)
  have k': "k < length reg'" "atPosition (reg' ! k) x y" using k r by (simp_all add: strike_at)
  have l': "\<forall>j. k < j \<and> j < length reg' \<longrightarrow> \<not> atPosition (reg' ! j) x y"
    using l r by simp
  have a2: "attackCharacterAtPosition reg' x y = Some (reg'[k := strike (reg' ! k)])"
    by (rule attack_last [OF k' l'])
  have n: "typeOnMap (reg' ! k) \<noteq> CHR ''C''" using k r by (simp add: strike_not_friendly)
  have s: "typeOnMap (strike (reg' ! k)) = typeOnMap (reg' ! k)"
    "strategy (strike (reg' ! k)) = strategy (reg' ! k)"
    using n by (simp_all add: strike_symbol strike_strategy)
  have m: "map typeOnMap (reg'[k := strike (reg' ! k)]) = map typeOnMap reg'"
    "map strategy (reg'[k := strike (reg' ! k)]) = map strategy reg'"
    using s k' by (auto intro!: nth_equalityI simp: nth_list_update)
  have c: "typeOnMap (reg ! k) = CHR ''C'' \<longrightarrow>
        typeOnMap (reg' ! k) = CHR ''O'' \<and> strategy (reg' ! k) = AggressorStrategy"
    using k r by (simp add: strike_symbol strike_strategy)
  show ?thesis using k r c n a2 m by blast
qed

theorem attack_converts_friendly_once_witness:
  "attackCharacterAtPosition [hunter, friendly] 1 2 =
     Some [hunter, friendly\<lparr>typeOnMap := CHR ''O'', strategy := AggressorStrategy, hitPoints := 2\<rparr>] \<and>
   attackCharacterAtPosition
     [hunter, friendly\<lparr>typeOnMap := CHR ''O'', strategy := AggressorStrategy, hitPoints := 2\<rparr>] 1 2 =
     Some [hunter, friendly\<lparr>typeOnMap := CHR ''O'', strategy := AggressorStrategy, hitPoints := 1\<rparr>]"
proof -
  let ?once = "[hunter, friendly\<lparr>typeOnMap := CHR ''O'', strategy := AggressorStrategy, hitPoints := 2\<rparr>]"
  have a: "attackCharacterAtPosition [hunter, friendly] 1 2 = Some ?once"
    by (simp add: demo_defs code_defs Let_def)
  from attack_converts_friendly_once [OF a] obtain k reg'' where k: "k < length [hunter, friendly]"
    "atPosition ([hunter, friendly] ! k) 1 2"
    and t: "attackCharacterAtPosition ?once 1 2 = Some reg''" "reg'' = ?once[k := strike (?once ! k)]"
    by blast
  have "k = 1" using k by (cases k) (auto simp: atPosition_def hunter_def)
  with t have "attackCharacterAtPosition ?once 1 2 =
     Some [hunter, friendly\<lparr>typeOnMap := CHR ''O'', strategy := AggressorStrategy, hitPoints := 1\<rparr>]"
    by (simp add: strike_def wrapInt_def friendly_def Let_def)
  with a show ?thesis by simp
qed

text \<open>
  C10. When several registry entries have the attacked coordinates, the one struck is
  the last of them in registry order; every other entry, earlier matches included, is
  unchanged.
\<close>

theorem attack_strikes_last_match:
  assumes "k < length reg" "atPosition (reg ! k) x y"
    "\<forall>j. k < j \<and> j < length reg \<longrightarrow> \<not> atPosition (reg ! j) x y"
  shows "\<exists>reg'. attackCharacterAtPosition reg x y = Some reg' \<and>
           length reg' = length reg \<and>
           reg' ! k = strike (reg ! k) \<and>
           (\<forall>j. j < length reg \<and> j \<noteq> k \<longrightarrow> reg' ! j = reg ! j)"
  using attack_last [OF assms] assms(1) by simp

theorem attack_strikes_last_match_witness:
  "atPosition ([friendly, rival] ! 0) 1 2 \<and> atPosition ([friendly, rival] ! 1) 1 2 \<and>
   (\<exists>reg'. attackCharacterAtPosition [friendly, rival] 1 2 = Some reg' \<and>
      reg' ! 1 = strike rival \<and> reg' ! 0 = friendly \<and> hitPoints (reg' ! 1) = 4)"
proof -
  have h: "(1::nat) < length [friendly, rival]" "atPosition ([friendly, rival] ! 1) 1 2"
    "\<forall>j. 1 < j \<and> j < length [friendly, rival] \<longrightarrow> \<not> atPosition ([friendly, rival] ! j) 1 2"
    by (simp_all add: atPosition_def rival_def)
  have f: "atPosition ([friendly, rival] ! 0) 1 2" by (simp add: atPosition_def friendly_def)
  have s: "hitPoints (strike rival) = 4" by (simp add: strike_def wrapInt_def rival_def Let_def)
  from attack_strikes_last_match [OF h] obtain reg' where
    "attackCharacterAtPosition [friendly, rival] 1 2 = Some reg'"
    "reg' ! 1 = strike ([friendly, rival] ! 1)"
    "\<forall>j. j < length [friendly, rival] \<and> j \<noteq> 1 \<longrightarrow> reg' ! j = [friendly, rival] ! j"
    by blast
  then have "attackCharacterAtPosition [friendly, rival] 1 2 = Some reg' \<and>
      reg' ! 1 = strike rival \<and> reg' ! 0 = friendly \<and> hitPoints (reg' ! 1) = 4"
    using s by simp
  with h f show ?thesis by blast
qed

section \<open>Defeated characters\<close>

text \<open>
  C6. For a character whose hit points are at most 0, \<^verbatim>\<open>execute\<close> returns the state
  it was given: map, registry, the character and the rendered output are unchanged.
\<close>

theorem execute_defeated_is_skip: "hitPoints (deref w r) \<le> 0 \<Longrightarrow> execute w r = Some w"
  by (simp add: execute_def)

theorem execute_defeated_is_skip_witness:
  "hitPoints (deref (arena\<lparr>gameCharacters := [hunter\<lparr>hitPoints := 0\<rparr>, friendly]\<rparr>) (Registered 0)) \<le> 0 \<and>
   execute (arena\<lparr>gameCharacters := [hunter\<lparr>hitPoints := 0\<rparr>, friendly]\<rparr>) (Registered 0) =
     Some (arena\<lparr>gameCharacters := [hunter\<lparr>hitPoints := 0\<rparr>, friendly]\<rparr>)"
proof -
  have h: "hitPoints (deref (arena\<lparr>gameCharacters := [hunter\<lparr>hitPoints := 0\<rparr>, friendly]\<rparr>) (Registered 0)) \<le> 0"
    by (simp add: deref_def)
  from execute_defeated_is_skip [OF h] h show ?thesis by simp
qed

section \<open>The state invariant\<close>

lemma attack_onePerCell:
  "attackCharacterAtPosition reg x y = Some reg' \<Longrightarrow> onePerCell reg' = onePerCell reg"
  by (simp add: onePerCell_def attack_positions)

theorem attack_preserves_invariant:
  assumes "stateInvariant m reg" "attackCharacterAtPosition reg x y = Some reg'"
  shows "onePerCell reg' \<and>
     (\<exists>k. k < length reg \<and> atPosition (reg ! k) x y \<and> reg' = reg[k := strike (reg ! k)] \<and>
        (typeOnMap (reg ! k) \<noteq> CHR ''C'' \<longrightarrow> stateInvariant m reg'))"
proof -
  from assms(2) obtain k where k: "k < length reg" "atPosition (reg ! k) x y"
    and r: "reg' = reg[k := strike (reg ! k)]" by (rule attack_target)
  have o: "onePerCell reg'" using assms by (simp add: attack_onePerCell stateInvariant_def)
  have "symbolsOnGrid m reg'" if n: "typeOnMap (reg ! k) \<noteq> CHR ''C''"
  proof -
    have "getCell m (currentPositionX g) (currentPositionY g) = typeOnMap g"
      if g: "g \<in> set reg'" for g
    proof -
      from g r have "g = strike (reg ! k) \<or> g \<in> set reg"
        using set_update_subset_insert [of reg k "strike (reg ! k)"] by auto
      then show ?thesis
      proof
        assume e: "g = strike (reg ! k)"
        have "reg ! k \<in> set reg" using k by simp
        then have "getCell m (currentPositionX (reg ! k)) (currentPositionY (reg ! k)) = typeOnMap (reg ! k)"
          using assms(1) by (simp add: stateInvariant_def symbolsOnGrid_def)
        then show ?thesis using e n
          by (simp add: strike_X strike_Y strike_symbol)
      next
        assume "g \<in> set reg"
        then show ?thesis using assms(1) by (simp add: stateInvariant_def symbolsOnGrid_def)
      qed
    qed
    then show ?thesis by (simp add: symbolsOnGrid_def)
  qed
  with o k r show ?thesis unfolding stateInvariant_def by blast
qed

theorem placeAt_preserves_invariant:
  assumes inv: "stateInvariant m reg" and i: "i < length reg"
    and free: "\<forall>g \<in> set reg. \<not> atPosition g (fst p) (snd p)"
  shows "stateInvariant (fst (placeAt m (reg ! i) p)) (reg[i := snd (placeAt m (reg ! i) p)])"
proof -
  let ?c = "reg ! i" and ?f = "\<lambda>g. (currentPositionX g, currentPositionY g)"
  let ?m' = "fst (placeAt m ?c p)" and ?c' = "snd (placeAt m ?c p)"
  let ?reg' = "reg[i := ?c']"
  have d: "distinct (map ?f reg)" using inv by (simp add: stateInvariant_def onePerCell_def)
  have c': "?f ?c' = p" "typeOnMap ?c' = typeOnMap ?c" by (simp_all add: placeAt_def)
  have n: "?f (?reg' ! j) = (if j = i then p else ?f (reg ! j))" if "j < length reg" for j
    using that c' by (simp add: nth_list_update)
  have np: "?f (reg ! j) \<noteq> p" if "j < length reg" for j
  proof -
    have "reg ! j \<in> set reg" using that by simp
    with free show ?thesis by (auto simp: atPosition_def)
  qed
  have "distinct (map ?f ?reg')"
    unfolding distinct_conv_nth
  proof (intro allI impI)
    fix a b assume a: "a < length (map ?f ?reg')" and b: "b < length (map ?f ?reg')" and ab: "a \<noteq> b"
    then have la: "a < length reg" and lb: "b < length reg" by simp_all
    have o: "?f (reg ! a) \<noteq> ?f (reg ! b)"
      using d la lb ab by (simp add: distinct_conv_nth)
    show "map ?f ?reg' ! a \<noteq> map ?f ?reg' ! b"
      using la lb o np [OF la] np [OF lb] ab n [OF la] n [OF lb]
      by simp
  qed
  then have one: "onePerCell ?reg'" by (simp add: onePerCell_def)
  have "getCell ?m' (currentPositionX g) (currentPositionY g) = typeOnMap g"
    if g: "g \<in> set ?reg'" for g
  proof -
    from g obtain j where j: "j < length reg" "g = ?reg' ! j" by (auto simp: in_set_conv_nth)
    show ?thesis
    proof (cases "j = i")
      case True
      then have "g = ?c'" using j by simp
      then show ?thesis using c' by (simp add: placeAt_getCell)
    next
      case False
      then have e: "g = reg ! j" using j by simp
      have "?f g \<noteq> p" using e np [OF j(1)] by simp
      moreover have "?f g \<noteq> ?f ?c"
        using d j(1) i False e by (simp add: distinct_conv_nth)
      moreover have "getCell m (currentPositionX g) (currentPositionY g) = typeOnMap g"
        using inv e j(1) by (simp add: stateInvariant_def symbolsOnGrid_def)
      ultimately show ?thesis by (auto simp: placeAt_getCell)
    qed
  qed
  then have "symbolsOnGrid ?m' ?reg'" by (simp add: symbolsOnGrid_def)
  with one show ?thesis by (simp add: stateInvariant_def)
qed

lemma arena_inv: "stateInvariant arenaMap [hunter, friendly]"
  by (simp add: stateInvariant_def onePerCell_def symbolsOnGrid_def demo_defs getCell_def)

lemma duel_inv: "stateInvariant duelMap [brawler, friendly]"
  by (simp add: stateInvariant_def onePerCell_def symbolsOnGrid_def demo_defs getCell_def)

text \<open>
  C8, as the code has it. A movement primitive applied to a registered character
  preserves the invariant provided no registered character records the destination cell
  (which is what the blank test of \<^verbatim>\<open>moveCloserToHuman\<close> is for). A successful
  attack changes no position and no cell, so it keeps one character per cell; it keeps
  the whole invariant when the target's symbol is not \<open>C\<close>.
\<close>

theorem mutations_preserve_invariant_when_guarded:
  assumes "stateInvariant m reg"
  shows "(i < length reg \<and> prim \<in> {moveUp, moveDown, moveLeft, moveRight} \<and>
      prim m (reg ! i) = (m', c') \<and>
      (\<forall>g \<in> set reg. \<not> atPosition g (currentPositionX c') (currentPositionY c')) \<longrightarrow>
        stateInvariant m' (reg[i := c'])) \<and>
     (attackCharacterAtPosition reg x y = Some reg' \<longrightarrow>
        onePerCell reg' \<and>
        (\<exists>k. k < length reg \<and> atPosition (reg ! k) x y \<and> reg' = reg[k := strike (reg ! k)] \<and>
           (typeOnMap (reg ! k) \<noteq> CHR ''C'' \<longrightarrow> stateInvariant m reg')))"
proof (intro conjI impI)
  assume a: "i < length reg \<and> prim \<in> {moveUp, moveDown, moveLeft, moveRight} \<and>
      prim m (reg ! i) = (m', c') \<and>
      (\<forall>g \<in> set reg. \<not> atPosition g (currentPositionX c') (currentPositionY c'))"
  then have "prim = moveUp \<or> prim = moveDown \<or> prim = moveLeft \<or> prim = moveRight"
    and "prim m (reg ! i) = (m', c')" by simp_all
  then have "\<exists>p. placeAt m (reg ! i) p = (m', c')"
    by (metis moveUp_placeAt moveDown_placeAt moveLeft_placeAt moveRight_placeAt)
  then obtain p where e: "placeAt m (reg ! i) p = (m', c')" by blast
  then have s: "m' = fst (placeAt m (reg ! i) p)" "c' = snd (placeAt m (reg ! i) p)" by simp_all
  have "currentPositionX c' = fst p" "currentPositionY c' = snd p"
    using s by (simp_all add: placeAt_simps)
  with a have "\<forall>g \<in> set reg. \<not> atPosition g (fst p) (snd p)" by simp
  from placeAt_preserves_invariant [OF assms _ this, of i] a s show "stateInvariant m' (reg[i := c'])" by simp
next
  assume "attackCharacterAtPosition reg x y = Some reg'"
  from attack_preserves_invariant [OF assms this]
  show "onePerCell reg'"
    "\<exists>k. k < length reg \<and> atPosition (reg ! k) x y \<and> reg' = reg[k := strike (reg ! k)] \<and>
           (typeOnMap (reg ! k) \<noteq> CHR ''C'' \<longrightarrow> stateInvariant m reg')"
    by simp_all
qed

theorem mutations_preserve_invariant_when_guarded_witness:
  "stateInvariant arenaMap [hunter, friendly] \<and>
   stateInvariant (fst (moveUp arenaMap hunter)) [snd (moveUp arenaMap hunter), friendly] \<and>
   attackCharacterAtPosition [hunter, friendly] 2 5 = Some [hunter\<lparr>hitPoints := 2\<rparr>, friendly] \<and>
   stateInvariant arenaMap [hunter\<lparr>hitPoints := 2\<rparr>, friendly]"
proof -
  have a: "attackCharacterAtPosition [hunter, friendly] 2 5 = Some [hunter\<lparr>hitPoints := 2\<rparr>, friendly]"
    by (simp add: demo_defs code_defs Let_def)
  have f: "\<forall>g \<in> set [hunter, friendly]. \<not> atPosition g
      (currentPositionX (snd (moveUp arenaMap hunter))) (currentPositionY (snd (moveUp arenaMap hunter)))"
    by (simp add: demo_defs atPosition_def moveUp_def Let_def)
  have n: "typeOnMap ([hunter, friendly] ! 0) \<noteq> CHR ''C''" by (simp add: hunter_def)
  from mutations_preserve_invariant_when_guarded [OF arena_inv, of 0 moveUp "fst (moveUp arenaMap hunter)" "snd (moveUp arenaMap hunter)"
      2 5 "[hunter\<lparr>hitPoints := 2\<rparr>, friendly]"] f a
  have "stateInvariant (fst (moveUp arenaMap hunter)) [snd (moveUp arenaMap hunter), friendly]"
    and "\<exists>k. k < length [hunter, friendly] \<and> atPosition ([hunter, friendly] ! k) 2 5 \<and>
       [hunter\<lparr>hitPoints := 2\<rparr>, friendly] = [hunter, friendly][k := strike ([hunter, friendly] ! k)] \<and>
       (typeOnMap ([hunter, friendly] ! k) \<noteq> CHR ''C'' \<longrightarrow>
          stateInvariant arenaMap [hunter\<lparr>hitPoints := 2\<rparr>, friendly])"
    by simp_all
  then obtain k where k: "k < length [hunter, friendly]" "atPosition ([hunter, friendly] ! k) 2 5"
    "typeOnMap ([hunter, friendly] ! k) \<noteq> CHR ''C'' \<longrightarrow>
          stateInvariant arenaMap [hunter\<lparr>hitPoints := 2\<rparr>, friendly]"
    and mvd: "stateInvariant (fst (moveUp arenaMap hunter)) [snd (moveUp arenaMap hunter), friendly]"
    by blast
  have "k = 0" using k(1,2) by (cases k) (auto simp: atPosition_def friendly_def)
  with k(3) n have "stateInvariant arenaMap [hunter\<lparr>hitPoints := 2\<rparr>, friendly]" by simp
  with arena_inv mvd a show ?thesis by simp
qed

text \<open>
  Without those provisos the invariant is lost. An attack on a character marked \<open>C\<close>,
  alone or as part of a turn on the 3 by 3 map with the two characters at \<open>(1, 1)\<close> and
  \<open>(0, 1)\<close>, changes its symbol to \<open>O\<close> while the grid still shows \<open>C\<close>; and
  \<^verbatim>\<open>moveRight\<close> onto a cell that another character records leaves two characters on
  one cell.
\<close>

theorem invariant_broken_by_unguarded_mutation:
  "stateInvariant skirmishMap [brawler, bystander] \<and>
   attackCharacterAtPosition [brawler, bystander] 0 1 =
     Some [brawler, bystander\<lparr>typeOnMap := CHR ''O'', strategy := AggressorStrategy, hitPoints := 2\<rparr>] \<and>
   execute skirmish (Registered 0) =
     Some (skirmish\<lparr>gameCharacters :=
       [brawler, bystander\<lparr>typeOnMap := CHR ''O'', strategy := AggressorStrategy, hitPoints := 2\<rparr>],
       console := [brawler]\<rparr>) \<and>
   \<not> stateInvariant skirmishMap
     [brawler, bystander\<lparr>typeOnMap := CHR ''O'', strategy := AggressorStrategy, hitPoints := 2\<rparr>] \<and>
   stateInvariant duelMap [brawler, friendly] \<and>
   moveRight duelMap brawler =
     (setCell (clearCell duelMap 1 1) 1 2 (CHR ''O''), brawler\<lparr>currentPositionY := 2\<rparr>) \<and>
   \<not> stateInvariant (setCell (clearCell duelMap 1 1) 1 2 (CHR ''O''))
     [brawler\<lparr>currentPositionY := 2\<rparr>, friendly]"
  by (simp add: stateInvariant_def onePerCell_def symbolsOnGrid_def demo_defs code_defs Let_def)

text \<open>
  The moves that the strategy itself makes are guarded: \<^verbatim>\<open>moveCloserToHuman\<close> enters
  blank cells only, so it preserves the invariant for a registered character whenever no
  registered character's symbol is the blank.
\<close>

lemma moveCloserToHuman_preserves_invariant:
  assumes inv: "stateInvariant m reg" and i: "i < length reg"
    and sym: "\<forall>g \<in> set reg. typeOnMap g \<noteq> CHR '' ''"
    and mv: "moveCloserToHuman m (reg ! i) = (m', c')"
  shows "stateInvariant m' (reg[i := c'])"
  using moveCloser_blank [of m "reg ! i"]
proof
  assume "moveCloserToHuman m (reg ! i) = (m, reg ! i)"
  with mv have "m' = m" "c' = reg ! i" by simp_all
  with inv show ?thesis by simp
next
  assume "\<exists>p. getCell m (fst p) (snd p) = CHR '' '' \<and>
    moveCloserToHuman m (reg ! i) = placeAt m (reg ! i) p"
  then obtain p where b: "getCell m (fst p) (snd p) = CHR '' ''"
    and e: "moveCloserToHuman m (reg ! i) = placeAt m (reg ! i) p" by blast
  have free: "\<forall>g \<in> set reg. \<not> atPosition g (fst p) (snd p)"
  proof
    fix g assume g: "g \<in> set reg"
    then have "getCell m (currentPositionX g) (currentPositionY g) = typeOnMap g"
      using inv by (simp add: stateInvariant_def symbolsOnGrid_def)
    with sym g b show "\<not> atPosition g (fst p) (snd p)" by (auto simp: atPosition_def)
  qed
  from e mv have "placeAt m (reg ! i) p = (m', c')" by simp
  then have "m' = fst (placeAt m (reg ! i) p)" "c' = snd (placeAt m (reg ! i) p)" by simp_all
  with placeAt_preserves_invariant [OF inv i free] show ?thesis by simp
qed

section \<open>The invalid dereference\<close>

lemma canAttack_defined:
  assumes l: "occupied m (currentPositionX c - 1) (currentPositionY c) \<Longrightarrow>
      \<exists>g \<in> set reg. atPosition g (currentPositionX c - 1) (currentPositionY c)"
    and u: "occupied m (currentPositionX c) (currentPositionY c - 1) \<Longrightarrow>
      \<exists>g \<in> set reg. atPosition g (currentPositionX c) (currentPositionY c - 1)"
    and r: "occupied m (currentPositionX c + 1) (currentPositionY c) \<Longrightarrow>
      \<exists>g \<in> set reg. atPosition g (currentPositionX c + 1) (currentPositionY c)"
    and d: "0 < currentPositionY c \<or> \<not> occupied m (currentPositionX c) (currentPositionY c - 1)"
  shows "canAttackOneAdjacentCharacter m c reg \<noteq> None"
proof -
  let ?x = "currentPositionX c" and ?y = "currentPositionY c"
  have a: "attackCharacterAtPosition reg x y \<noteq> None" if "\<exists>g \<in> set reg. atPosition g x y" for x y
    using that by (simp add: attack_None_iff)
  show ?thesis unfolding canAttack_occupied using a [OF l] a [OF u] a [OF r] d by auto
qed


text \<open>On a map that answers no character symbol outside the grid, the fourth branch
  never passes its test for a character on the grid.\<close>

lemma canAttack_consistent:
  assumes "mapRegistryConsistent m reg" "occupiedOnlyInGrid m"
    "inGrid m (currentPositionX c) (currentPositionY c)"
  shows "canAttackOneAdjacentCharacter m c reg \<noteq> None"
proof (rule canAttack_defined)
  have "\<not> inGrid m (currentPositionX c) (currentPositionY c - 1)" if "\<not> 0 < currentPositionY c"
    using that assms(3) by (simp add: inGrid_def)
  then show "0 < currentPositionY c \<or> \<not> occupied m (currentPositionX c) (currentPositionY c - 1)"
    using assms(2) unfolding occupiedOnlyInGrid_def by blast
qed (use assms(1) in \<open>simp_all add: mapRegistryConsistent_def\<close>)









end
